theory Spec2Isabelle
  imports Complex_Main "HOL-Library.Word"
begin

unbundle bit_operations_syntax

section \<open>Python values used by \<^verbatim>\<open>bluetooth.py\<close>\<close>

text \<open>
  A \<^verbatim>\<open>bytes\<close> object is a list of 8-bit words; indexing it gives an integer in
  \<open>0..255\<close> (\<open>uint\<close>). Every exception the embedded code can raise is a constructor of
  \<open>error\<close>, and a function that can raise returns \<open>error + 'a\<close> with \<open>Inl\<close> for the
  exception.
\<close>

type_synonym byte = "8 word"

datatype error =
    KeyError
  | IndexError
  | StructError
  | UnicodeDecodeError
  | StatisticsError
  | ZeroDivisionError
  | OverflowError

text \<open>\<^verbatim>\<open>d[k]\<close> on a dict: \<^verbatim>\<open>KeyError\<close> for a missing key.\<close>

definition getitem :: "('k \<rightharpoonup> 'v) \<Rightarrow> 'k \<Rightarrow> error + 'v" where
  "getitem d k = (case d k of None \<Rightarrow> Inl KeyError | Some v \<Rightarrow> Inr v)"

text \<open>\<^verbatim>\<open>data[i]\<close> on bytes with a literal index \<open>i \<ge> 0\<close>: \<^verbatim>\<open>IndexError\<close> out of range.\<close>

definition index :: "byte list \<Rightarrow> nat \<Rightarrow> error + byte" where
  "index data i = (if i < length data then Inr (data ! i) else Inl IndexError)"

text \<open>\<^verbatim>\<open>data[a:b]\<close> and \<^verbatim>\<open>data[a:]\<close> with literal bounds \<open>0 \<le> a \<le> b\<close>: a slice never raises,
  it is cut at the end of the buffer.\<close>

definition slice :: "'a list \<Rightarrow> nat \<Rightarrow> nat \<Rightarrow> 'a list" where
  "slice data a b = take (b - a) (drop a data)"

definition slice_from :: "'a list \<Rightarrow> nat \<Rightarrow> 'a list" where
  "slice_from data a = drop a data"

text \<open>\<^verbatim>\<open>bytes.hex()\<close>: two lowercase hexadecimal digits per byte, no separator.\<close>

definition hexdigit :: "nat \<Rightarrow> char" where
  "hexdigit n = ''0123456789abcdef'' ! n"

definition hex :: "byte list \<Rightarrow> string" where
  "hex data = concat (map (\<lambda>b. [hexdigit (unat b div 16), hexdigit (unat b mod 16)]) data)"

text \<open>\<^verbatim>\<open>str.startswith\<close>.\<close>

definition startswith :: "string \<Rightarrow> string \<Rightarrow> bool" where
  "startswith s p = (take (length p) s = p)"

text \<open>
  \<^verbatim>\<open>struct.unpack('>HHb', buf)\<close>: the buffer must hold exactly 5 bytes, otherwise
  \<^verbatim>\<open>struct.error\<close>; two big-endian unsigned 16-bit values and one signed 8-bit value.
\<close>

definition unpack_HHb :: "byte list \<Rightarrow> error + (int \<times> int \<times> int)" where
  "unpack_HHb buf =
     (if length buf \<noteq> 5 then Inl StructError
      else Inr (256 * uint (buf ! 0) + uint (buf ! 1),
                256 * uint (buf ! 2) + uint (buf ! 3),
                sint (buf ! 4)))"

text \<open>
  \<^verbatim>\<open>bytes.decode('utf-8')\<close> (strict): the list of Unicode code points, or
  \<^verbatim>\<open>UnicodeDecodeError\<close> for an invalid start byte, a missing or invalid continuation
  byte, an overlong form, a surrogate or a code point beyond \<open>0x10FFFF\<close>.
\<close>

definition is_cont :: "nat \<Rightarrow> bool" where
  "is_cont b = (0x80 \<le> b \<and> b \<le> 0xBF)"

text \<open>The second byte of a 3-byte or 4-byte form has a narrower range after the start
  bytes \<open>E0\<close>, \<open>ED\<close>, \<open>F0\<close> and \<open>F4\<close>.\<close>

definition second_ok :: "nat \<Rightarrow> nat \<Rightarrow> bool" where
  "second_ok b0 b1 =
     ((if b0 = 0xE0 then 0xA0 else if b0 = 0xF0 then 0x90 else 0x80) \<le> b1
      \<and> b1 \<le> (if b0 = 0xED then 0x9F else if b0 = 0xF4 then 0x8F else 0xBF))"

definition cons_ok :: "'a \<Rightarrow> error + 'a list \<Rightarrow> error + 'a list" where
  "cons_ok c r = (case r of Inl e \<Rightarrow> Inl e | Inr cs \<Rightarrow> Inr (c # cs))"

fun utf8_points :: "nat list \<Rightarrow> error + nat list" where
  "utf8_points [] = Inr []"
| "utf8_points (b0 # bs) =
     (if b0 < 0x80 then cons_ok b0 (utf8_points bs)
      else if 0xC2 \<le> b0 \<and> b0 \<le> 0xDF then
        (case bs of
           b1 # r \<Rightarrow>
             if is_cont b1
             then cons_ok ((b0 - 0xC0) * 64 + (b1 - 0x80)) (utf8_points r)
             else Inl UnicodeDecodeError
         | _ \<Rightarrow> Inl UnicodeDecodeError)
      else if 0xE0 \<le> b0 \<and> b0 \<le> 0xEF then
        (case bs of
           b1 # b2 # r \<Rightarrow>
             if second_ok b0 b1 \<and> is_cont b2
             then cons_ok ((b0 - 0xE0) * 4096 + (b1 - 0x80) * 64 + (b2 - 0x80)) (utf8_points r)
             else Inl UnicodeDecodeError
         | _ \<Rightarrow> Inl UnicodeDecodeError)
      else if 0xF0 \<le> b0 \<and> b0 \<le> 0xF4 then
        (case bs of
           b1 # b2 # b3 # r \<Rightarrow>
             if second_ok b0 b1 \<and> is_cont b2 \<and> is_cont b3
             then cons_ok ((b0 - 0xF0) * 262144 + (b1 - 0x80) * 4096 + (b2 - 0x80) * 64 + (b3 - 0x80))
                    (utf8_points r)
             else Inl UnicodeDecodeError
         | _ \<Rightarrow> Inl UnicodeDecodeError)
      else Inl UnicodeDecodeError)"

definition decode_utf8 :: "byte list \<Rightarrow> error + nat list" where
  "decode_utf8 data = utf8_points (map unat data)"

text \<open>A Python \<^verbatim>\<open>str\<close> of ASCII characters as its code points.\<close>

definition str :: "string \<Rightarrow> nat list" where
  "str s = map of_char s"

section \<open>\<^verbatim>\<open>class RecordRSSI\<close>\<close>

record RecordRSSI =
  rssidict :: "string \<rightharpoonup> int list"

definition init :: RecordRSSI where
  "init = \<lparr>rssidict = Map.empty\<rparr>"

text \<open>
  \<^verbatim>\<open>record_data\<close> mutates \<^verbatim>\<open>self.rssidict\<close>; the model returns the updated object. The
  lookup \<^verbatim>\<open>self.rssidict[address]\<close> is kept as the fallible operation it is.
\<close>

definition record_data :: "RecordRSSI \<Rightarrow> string \<Rightarrow> int \<Rightarrow> error + RecordRSSI" where
  "record_data self address rssi =
     (let d = (if rssidict self address = None
               then (rssidict self)(address \<mapsto> [])
               else rssidict self)
      in case getitem d address of
           Inl e \<Rightarrow> Inl e
         | Inr xs \<Rightarrow> Inr (self\<lparr>rssidict := d(address \<mapsto> xs @ [rssi])\<rparr>))"

definition rssi_values :: "RecordRSSI \<Rightarrow> (string \<rightharpoonup> int list)" where
  "rssi_values self = rssidict self"

text \<open>A finite sequence of \<^verbatim>\<open>record_data\<close> calls on one recorder, as the scan loop makes
  them; an exception would end the sequence.\<close>

fun record_all :: "RecordRSSI \<Rightarrow> (string \<times> int) list \<Rightarrow> error + RecordRSSI" where
  "record_all self [] = Inr self"
| "record_all self ((address, rssi) # calls) =
     (case record_data self address rssi of
        Inl e \<Rightarrow> Inl e
      | Inr self' \<Rightarrow> record_all self' calls)"

section \<open>The frame decoders\<close>

text \<open>The dictionaries the decoders return, one constructor per \<^verbatim>\<open>'type'\<close>, the
  values in the order of the keys named beside it. A URL is a Python \<^verbatim>\<open>str\<close>, kept as
  its code points.\<close>

datatype beacon =
    IBeacon string int int int  \<comment> \<open>uuid, major, minor, tx\_power\<close>
  | EddystoneUID string string int  \<comment> \<open>namespace, instance, tx\_power\<close>
  | EddystoneURL "nat list" int  \<comment> \<open>url, tx\_power\<close>

definition ibeacon_prefix :: "byte list" where
  "ibeacon_prefix = [0x4c, 0x00, 0x02, 0x15]"

text \<open>The body of the \<^verbatim>\<open>try\<close> block of \<^verbatim>\<open>parse_ibeacon\<close>.\<close>

definition parse_ibeacon_try :: "byte list \<Rightarrow> error + beacon option" where
  "parse_ibeacon_try manufacturer_data =
     (let prefix = slice manufacturer_data 0 4 in
      if prefix \<noteq> ibeacon_prefix then Inr None
      else
        let uuid = hex (slice manufacturer_data 4 20) in
        case unpack_HHb (slice manufacturer_data 20 25) of
          Inl e \<Rightarrow> Inl e
        | Inr (major, minor, tx_power) \<Rightarrow> Inr (Some (IBeacon uuid major minor tx_power)))"

text \<open>The bare \<^verbatim>\<open>except: return None\<close> around it.\<close>

definition parse_ibeacon :: "byte list \<Rightarrow> beacon option" where
  "parse_ibeacon manufacturer_data =
     (case parse_ibeacon_try manufacturer_data of Inl e \<Rightarrow> None | Inr r \<Rightarrow> r)"

definition eddystone_prefix :: string where
  "eddystone_prefix = ''0000feaa-''"

text \<open>
  \<^verbatim>\<open>service_data.items()\<close> is walked in the dict's order, so the mapping is the list of
  its items. The dict display of a UID frame evaluates the two slices before
  \<^verbatim>\<open>data[1]\<close>; that of a URL frame decodes the text before \<^verbatim>\<open>data[1]\<close>. An entry with
  another frame type returns nothing and the loop goes on.
\<close>

fun parse_eddystone_try :: "(string \<times> byte list) list \<Rightarrow> error + beacon option" where
  "parse_eddystone_try [] = Inr None"
| "parse_eddystone_try ((uuid, data) # items) =
     (if startswith uuid eddystone_prefix then
        (case index data 0 of
           Inl e \<Rightarrow> Inl e
         | Inr frame_type \<Rightarrow>
             if frame_type = 0x00 then
               (let ns = hex (slice data 2 12);
                    inst = hex (slice data 12 18)
                in case index data 1 of
                     Inl e \<Rightarrow> Inl e
                   | Inr tx \<Rightarrow> Inr (Some (EddystoneUID ns inst (uint tx))))
             else if frame_type = 0x10 then
               (case decode_utf8 (slice_from data 2) of
                  Inl e \<Rightarrow> Inl e
                | Inr text \<Rightarrow>
                    (case index data 1 of
                       Inl e \<Rightarrow> Inl e
                     | Inr tx \<Rightarrow> Inr (Some (EddystoneURL text (uint tx)))))
             else parse_eddystone_try items)
      else parse_eddystone_try items)"

definition parse_eddystone :: "(string \<times> byte list) list \<Rightarrow> beacon option" where
  "parse_eddystone service_data =
     (case parse_eddystone_try service_data of Inl e \<Rightarrow> None | Inr r \<Rightarrow> r)"

section \<open>Python numbers of the distance pipeline\<close>

text \<open>
  A Python number is an \<^verbatim>\<open>int\<close> (unbounded) or a \<^verbatim>\<open>float\<close>. A float is a finite value,
  one of the two infinities or NaN. A finite value is kept as the real number it stands
  for: rounding inside the finite range is not modelled. What is modelled of the double
  format is its range, under round-to-nearest: a result of magnitude
  \<open>2\<^sup>1\<^sup>0\<^sup>2\<^sup>4 - 2\<^sup>9\<^sup>7\<^sup>0\<close> or more (half a unit beyond the largest double) becomes an infinity,
  and one of magnitude \<open>2\<^sup>-\<^sup>1\<^sup>0\<^sup>7\<^sup>5\<close> or less (half the smallest double) becomes zero. The
  two zeros are not told apart; nothing in the expression depends on the sign of a zero.
\<close>

datatype pyfloat = Fin real | PInf | NInf | NaN

datatype pynum = PyInt int | PyFloat pyfloat

definition DBL_MAX :: real where
  "DBL_MAX = 2 ^ 1024 - 2 ^ 971"

definition DBL_OVER :: real where
  "DBL_OVER = 2 ^ 1024 - 2 ^ 970"

definition DBL_UNDER :: real where
  "DBL_UNDER = 1 / 2 ^ 1075"

definition to_double :: "real \<Rightarrow> pyfloat" where
  "to_double r =
     (if DBL_OVER \<le> r then PInf
      else if r \<le> - DBL_OVER then NInf
      else if \<bar>r\<bar> \<le> DBL_UNDER then Fin 0
      else Fin r)"

text \<open>The conversion of an \<^verbatim>\<open>int\<close> operand when the other operand is a float:
  \<^verbatim>\<open>OverflowError\<close> (int too large to convert to float) beyond the range.\<close>

definition float_of_int :: "int \<Rightarrow> error + pyfloat" where
  "float_of_int n =
     (if DBL_OVER \<le> \<bar>real_of_int n\<bar> then Inl OverflowError else Inr (Fin (real_of_int n)))"

fun as_float :: "pynum \<Rightarrow> error + pyfloat" where
  "as_float (PyInt n) = float_of_int n"
| "as_float (PyFloat f) = Inr f"

text \<open>Subtraction, multiplication by 10 and division of doubles (IEEE 754); the divisor
  of \<open>fdiv\<close> is not zero.\<close>

fun fsub :: "pyfloat \<Rightarrow> pyfloat \<Rightarrow> pyfloat" where
  "fsub NaN b = NaN"
| "fsub a NaN = NaN"
| "fsub (Fin a) (Fin b) = to_double (a - b)"
| "fsub PInf PInf = NaN"
| "fsub NInf NInf = NaN"
| "fsub PInf b = PInf"
| "fsub NInf b = NInf"
| "fsub a PInf = NInf"
| "fsub a NInf = PInf"

fun fmul10 :: "pyfloat \<Rightarrow> pyfloat" where
  "fmul10 (Fin b) = to_double (10 * b)"
| "fmul10 b = b"

fun fdiv :: "pyfloat \<Rightarrow> pyfloat \<Rightarrow> pyfloat" where
  "fdiv NaN b = NaN"
| "fdiv a NaN = NaN"
| "fdiv (Fin a) (Fin b) = to_double (a / b)"
| "fdiv (Fin a) b = Fin 0"
| "fdiv PInf (Fin b) = (if 0 < b then PInf else NInf)"
| "fdiv NInf (Fin b) = (if 0 < b then NInf else PInf)"
| "fdiv a b = NaN"

text \<open>
  The operators of the expression \<^verbatim>\<open>10**((mRSSI - x)/(10*txPower))\<close> on Python numbers.
  Between two ints, \<^verbatim>\<open>-\<close> and \<^verbatim>\<open>*\<close> are exact and \<^verbatim>\<open>/\<close> is the correctly rounded
  quotient, with \<^verbatim>\<open>OverflowError\<close> (integer division result too large for a float) beyond
  the range. With a float operand both operands are converted, the left one first, and
  the operation is the double's: no float operation raises on overflow, only \<^verbatim>\<open>/\<close> raises
  \<^verbatim>\<open>ZeroDivisionError\<close> for a zero divisor.
\<close>

fun num_sub :: "pynum \<Rightarrow> pynum \<Rightarrow> error + pynum" where
  "num_sub (PyInt a) (PyInt b) = Inr (PyInt (a - b))"
| "num_sub a b =
     (case as_float a of
        Inl e \<Rightarrow> Inl e
      | Inr fa \<Rightarrow> (case as_float b of Inl e \<Rightarrow> Inl e | Inr fb \<Rightarrow> Inr (PyFloat (fsub fa fb))))"

fun num_mul10 :: "pynum \<Rightarrow> pynum" where
  "num_mul10 (PyInt t) = PyInt (10 * t)"
| "num_mul10 (PyFloat f) = PyFloat (fmul10 f)"

fun num_truediv :: "pynum \<Rightarrow> pynum \<Rightarrow> error + pyfloat" where
  "num_truediv (PyInt a) (PyInt b) =
     (if b = 0 then Inl ZeroDivisionError
      else if DBL_OVER \<le> \<bar>real_of_int a / real_of_int b\<bar> then Inl OverflowError
      else Inr (to_double (real_of_int a / real_of_int b)))"
| "num_truediv a b =
     (case as_float a of
        Inl e \<Rightarrow> Inl e
      | Inr fa \<Rightarrow>
          (case as_float b of
             Inl e \<Rightarrow> Inl e
           | Inr fb \<Rightarrow> if fb = Fin 0 then Inl ZeroDivisionError else Inr (fdiv fa fb)))"

text \<open>
  \<^verbatim>\<open>10 ** y\<close> for a float \<open>y\<close>: the power of doubles. It raises \<^verbatim>\<open>OverflowError\<close> when
  the power of a finite \<open>y\<close> is beyond the range; a power too small for a double is
  \<open>0.0\<close>, and an infinite or NaN exponent is no error.
\<close>

fun pow10 :: "pyfloat \<Rightarrow> error + pyfloat" where
  "pow10 (Fin y) =
     (if DBL_OVER \<le> 10 powr y then Inl OverflowError else Inr (to_double (10 powr y)))"
| "pow10 PInf = Inr PInf"
| "pow10 NInf = Inr (Fin 0)"
| "pow10 NaN = Inr NaN"

text \<open>
  \<^verbatim>\<open>statistics.stdev\<close> of the standard library on ints (CPython 3.11 and later): the
  correctly rounded square root of the exact sample variance (divisor \<open>n - 1\<close>);
  \<^verbatim>\<open>StatisticsError\<close> for fewer than two data points, \<^verbatim>\<open>OverflowError\<close> when the root is
  beyond the range of a double.
\<close>

definition mean :: "int list \<Rightarrow> real" where
  "mean xs = real_of_int (sum_list xs) / real (length xs)"

definition stdev :: "int list \<Rightarrow> error + real" where
  "stdev xs =
     (if length xs < 2 then Inl StatisticsError
      else
        (case to_double (sqrt ((\<Sum>x\<leftarrow>xs. (real_of_int x - mean xs) ^ 2) / real (length xs - 1))) of
           Fin sd \<Rightarrow> Inr sd
         | _ \<Rightarrow> Inl OverflowError))"

text \<open>The value of a number that is a finite double without rounding: a finite float, or
  an int of magnitude at most \<open>2\<^sup>5\<^sup>3\<close>, which converts to a float exactly.\<close>

fun double_value :: "pynum \<Rightarrow> real option" where
  "double_value (PyInt n) = (if \<bar>n\<bar> \<le> 2 ^ 53 then Some (real_of_int n) else None)"
| "double_value (PyFloat (Fin r)) = (if \<bar>r\<bar> \<le> DBL_MAX then Some r else None)"
| "double_value (PyFloat f) = None"

fun is_int :: "pynum \<Rightarrow> bool" where
  "is_int (PyInt n) = True"
| "is_int (PyFloat f) = False"

section \<open>\<^verbatim>\<open>class KalmanFilter\<close> of the module \<^verbatim>\<open>kalman\<close>\<close>

text \<open>
  Modelled from the spec: the class \<^verbatim>\<open>KalmanFilter\<close> that \<^verbatim>\<open>bluetooth.py\<close> imports from
  the module \<^verbatim>\<open>kalman\<close>, which is not among the sources. The specification's
  KalmanSmoother is followed word for word: constructed from the process noise and the
  measurement noise; on the first sample the estimate is that sample and the error
  covariance is 1; each sample \<open>x\<close> (the first one too) then runs the update step
  \<^verbatim>\<open>error_covariance += process_noise\<close>,
  \<^verbatim>\<open>gain = error_covariance / (error_covariance + measurement_noise)\<close>,
  \<^verbatim>\<open>estimate += gain * (x - estimate)\<close>, \<^verbatim>\<open>error_covariance *= (1 - gain)\<close>, and the
  output is the updated estimate. The division is Python's.
\<close>

text \<open>The division of two floats of the filter.\<close>

definition truediv :: "real \<Rightarrow> real \<Rightarrow> error + real" where
  "truediv a b = (if b = 0 then Inl ZeroDivisionError else Inr (a / b))"

record KalmanFilter =
  process_noise :: real
  measurement_noise :: real
  estimate :: "real option"  \<comment> \<open>\<open>None\<close> until the first sample\<close>
  error_covariance :: real

definition KalmanFilter_init :: "real \<Rightarrow> real \<Rightarrow> KalmanFilter" where
  "KalmanFilter_init q r =
     \<lparr>process_noise = q, measurement_noise = r, estimate = None, error_covariance = 1\<rparr>"

definition KalmanFilter_filter :: "KalmanFilter \<Rightarrow> real \<Rightarrow> error + (real \<times> KalmanFilter)" where
  "KalmanFilter_filter self x =
     (let est0 = (case estimate self of None \<Rightarrow> x | Some e \<Rightarrow> e);
          cov0 = (case estimate self of None \<Rightarrow> 1 | Some e \<Rightarrow> error_covariance self);
          cov = cov0 + process_noise self
      in case truediv cov (cov + measurement_noise self) of
           Inl e \<Rightarrow> Inl e
         | Inr gain \<Rightarrow>
             (let est = est0 + gain * (x - est0)
              in Inr (est, self\<lparr>estimate := Some est, error_covariance := cov * (1 - gain)\<rparr>)))"

section \<open>\<^verbatim>\<open>distanceCalculate\<close>\<close>

text \<open>The expression \<^verbatim>\<open>10**((mRSSI - x)/(10*txPower))\<close> of both distance lines, its
  operands evaluated from left to right.\<close>

definition distance :: "pynum \<Rightarrow> pynum \<Rightarrow> pynum \<Rightarrow> error + pyfloat" where
  "distance mRSSI x txPower =
     (case num_sub mRSSI x of
        Inl e \<Rightarrow> Inl e
      | Inr d \<Rightarrow>
          (case num_truediv d (num_mul10 txPower) of
             Inl e \<Rightarrow> Inl e
           | Inr y \<Rightarrow> pow10 y))"

record DistanceSeries =
  raw :: "pyfloat list"
  filtered :: "pyfloat list"

text \<open>The \<^verbatim>\<open>for\<close> loop, with the filter object and the two arrays it appends to. The
  sample \<open>x\<close> is an int; the filtered value is the float the filter returns.\<close>

fun distance_loop ::
  "KalmanFilter \<Rightarrow> pynum \<Rightarrow> pynum \<Rightarrow> int list \<Rightarrow> pyfloat list \<Rightarrow> pyfloat list
     \<Rightarrow> error + DistanceSeries" where
  "distance_loop test mRSSI txPower [] raw_distanceArray filtered_distanceArray =
     Inr \<lparr>raw = raw_distanceArray, filtered = filtered_distanceArray\<rparr>"
| "distance_loop test mRSSI txPower (x # xs) raw_distanceArray filtered_distanceArray =
     (case KalmanFilter_filter test (real_of_int x) of
        Inl e \<Rightarrow> Inl e
      | Inr (filteredValue, test') \<Rightarrow>
          (case distance mRSSI (PyInt x) txPower of
             Inl e \<Rightarrow> Inl e
           | Inr raw_distance \<Rightarrow>
               (case distance mRSSI (PyFloat (Fin filteredValue)) txPower of
                  Inl e \<Rightarrow> Inl e
                | Inr filtered_distance \<Rightarrow>
                    distance_loop test' mRSSI txPower xs
                      (raw_distanceArray @ [raw_distance])
                      (filtered_distanceArray @ [filtered_distance]))))"

text \<open>The global \<^verbatim>\<open>rssi_dict\<close> is a parameter.\<close>

definition distanceCalculate ::
  "(string \<rightharpoonup> int list) \<Rightarrow> string \<Rightarrow> pynum \<Rightarrow> pynum \<Rightarrow> error + DistanceSeries" where
  "distanceCalculate rssi_dict mac_address mRSSI txPower =
     (case getitem rssi_dict mac_address of
        Inl e \<Rightarrow> Inl e
      | Inr history \<Rightarrow>
          (case stdev history of
             Inl e \<Rightarrow> Inl e
           | Inr sd \<Rightarrow> distance_loop (KalmanFilter_init 0.008 sd) mRSSI txPower history [] []))"

section \<open>The recorder\<close>

lemma record_data_Inr:
  "record_data self a r =
     Inr (self\<lparr>rssidict :=
            (rssidict self)(a \<mapsto> (case rssidict self a of None \<Rightarrow> [] | Some xs \<Rightarrow> xs) @ [r])\<rparr>)"
  by (simp add: record_data_def getitem_def Let_def split: option.splits)

text \<open>From any recorder, a sequence of calls never raises, and each address ends with
  what it had followed by its own values in call order.\<close>

lemma record_all_Inr:
  "\<exists>s. record_all self calls = Inr s \<and>
       (\<forall>a. rssidict s a =
          (if a \<in> fst ` set calls \<or> rssidict self a \<noteq> None
           then Some ((case rssidict self a of None \<Rightarrow> [] | Some xs \<Rightarrow> xs)
                      @ map snd (filter (\<lambda>c. fst c = a) calls))
           else None))"
proof (induction calls arbitrary: self)
  case Nil
  then show ?case by (auto split: option.splits)
next
  case (Cons c calls)
  obtain b r where c: "c = (b, r)" by (cases c)
  let ?s1 = "self\<lparr>rssidict :=
               (rssidict self)(b \<mapsto> (case rssidict self b of None \<Rightarrow> [] | Some xs \<Rightarrow> xs) @ [r])\<rparr>"
  from Cons.IH [of ?s1] obtain s where s: "record_all ?s1 calls = Inr s"
    and look: "\<And>a. rssidict s a =
          (if a \<in> fst ` set calls \<or> rssidict ?s1 a \<noteq> None
           then Some ((case rssidict ?s1 a of None \<Rightarrow> [] | Some xs \<Rightarrow> xs)
                      @ map snd (filter (\<lambda>c. fst c = a) calls))
           else None)" by blast
  have "record_all self (c # calls) = Inr s"
    by (simp add: c record_data_Inr s)
  moreover have "\<forall>a. rssidict s a =
          (if a \<in> fst ` set (c # calls) \<or> rssidict self a \<noteq> None
           then Some ((case rssidict self a of None \<Rightarrow> [] | Some xs \<Rightarrow> xs)
                      @ map snd (filter (\<lambda>c. fst c = a) (c # calls)))
           else None)"
    by (auto simp: look c split: option.splits)
  ultimately show ?case by blast
qed

text \<open>
  C9. Starting from a new recorder, any finite sequence of \<^verbatim>\<open>record_data\<close> calls
  succeeds, and reading \<^verbatim>\<open>rssi_values()[a]\<close> afterwards gives exactly the values recorded
  for \<open>a\<close>, in the order of the calls; an address has a sequence if and only if some call
  named it (otherwise the lookup is a \<^verbatim>\<open>KeyError\<close>).
\<close>

theorem record_then_read_roundtrip:
  "\<exists>s. record_all init calls = Inr s \<and>
       getitem (rssi_values s) a =
          (if a \<in> fst ` set calls
           then Inr (map snd (filter (\<lambda>c. fst c = a) calls))
           else Inl KeyError)"
proof -
  from record_all_Inr [of init calls] obtain s where "record_all init calls = Inr s"
    and "\<And>a. rssidict s a =
          (if a \<in> fst ` set calls \<or> rssidict init a \<noteq> None
           then Some ((case rssidict init a of None \<Rightarrow> [] | Some xs \<Rightarrow> xs)
                      @ map snd (filter (\<lambda>c. fst c = a) calls))
           else None)" by blast
  then show ?thesis by (auto simp: getitem_def rssi_values_def init_def)
qed

theorem record_then_read_roundtrip_witness:
  "\<exists>s. record_all init [(''A'', -60), (''B'', -71), (''A'', -58)] = Inr s \<and>
       getitem (rssi_values s) ''A'' = Inr [-60, -58] \<and>
       getitem (rssi_values s) ''B'' = Inr [-71] \<and>
       getitem (rssi_values s) ''C'' = Inl KeyError"
proof -
  let ?calls = "[(''A'', -60), (''B'', -71), (''A'', -58 :: int)]"
  obtain s where s: "record_all init ?calls = Inr s"
    using record_then_read_roundtrip [of ?calls "''A''"] by blast
  have "getitem (rssi_values s) ''A'' = Inr [-60, -58]"
    using record_then_read_roundtrip [of ?calls "''A''"] s by simp
  moreover have "getitem (rssi_values s) ''B'' = Inr [-71]"
    using record_then_read_roundtrip [of ?calls "''B''"] s by simp
  moreover have "getitem (rssi_values s) ''C'' = Inl KeyError"
    using record_then_read_roundtrip [of ?calls "''C''"] s by simp
  ultimately show ?thesis using s by blast
qed

text \<open>
  C10. \<^verbatim>\<open>record_data(address, rssi)\<close> never raises; afterwards the sequence of
  \<open>address\<close> is its former sequence (empty if it had none) with \<open>rssi\<close> appended, and the
  sequence of every other address is what it was.
\<close>

theorem record_data_frame:
  "\<exists>s'. record_data s a r = Inr s' \<and>
        rssidict s' a = Some ((case rssidict s a of None \<Rightarrow> [] | Some xs \<Rightarrow> xs) @ [r]) \<and>
        (\<forall>b. b \<noteq> a \<longrightarrow> rssidict s' b = rssidict s b)"
  by (simp add: record_data_Inr)

theorem record_data_frame_witness:
  "\<exists>s'. record_data \<lparr>rssidict = [''B'' \<mapsto> [-71]]\<rparr> ''A'' (-60) = Inr s' \<and>
        rssidict s' ''A'' = Some [-60] \<and> ''B'' \<noteq> ''A'' \<and> rssidict s' ''B'' = Some [-71]"
  using record_data_frame [of "\<lparr>rssidict = [''B'' \<mapsto> [-71]]\<rparr>" "''A''" "-60"]
  by auto

section \<open>The iBeacon decoder\<close>

text \<open>
  C6. \<^verbatim>\<open>parse_ibeacon\<close> returns \<^verbatim>\<open>None\<close> for every buffer whose first four bytes are
  not \<open>4C 00 02 15\<close> (every buffer shorter than 4 bytes is one) and for every buffer
  shorter than 25 bytes. No exception leaves it: whatever the \<^verbatim>\<open>try\<close> block raises is
  turned into \<^verbatim>\<open>None\<close>.
\<close>

theorem parse_ibeacon_no_match:
  assumes "length buf < 4 \<or> take 4 buf \<noteq> [0x4c, 0x00, 0x02, 0x15] \<or> length buf < 25"
  shows "parse_ibeacon buf = None"
  using assms
  by (auto simp: parse_ibeacon_def parse_ibeacon_try_def slice_def ibeacon_prefix_def
      unpack_HHb_def Let_def)

theorem parse_ibeacon_no_match_witness:
  "length [0x4c, 0x00 :: byte] < 4 \<and> parse_ibeacon [0x4c, 0x00] = None"
  using parse_ibeacon_no_match [of "[0x4c, 0x00]"] by simp

text \<open>
  C8. On \<open>4C 00 02 15\<close>, sixteen zero bytes, \<open>00 01 00 02 FE\<close> the decoder returns an
  iBeacon whose uuid is 32 digits \<open>0\<close>, major 1, minor 2 and tx power \<open>-2\<close>.
\<close>

theorem parse_ibeacon_test_vector:
  "parse_ibeacon ([0x4c, 0x00, 0x02, 0x15] @ replicate 16 0 @ [0x00, 0x01, 0x00, 0x02, 0xFE])
     = Some (IBeacon (replicate 32 CHR ''0'') 1 2 (- 2))"
  by code_simp

section \<open>The Eddystone decoder\<close>

text \<open>
  C1. A UID frame of three bytes, shorter than the 18 bytes a UID frame has, is not
  rejected: the slices are cut short and the result is a record with a one-byte namespace
  and an empty instance.
\<close>

theorem parse_eddystone_short_uid_frame:
  "parse_eddystone [(''0000feaa-0000-1000-8000-00805f9b34fb'', [0x00, 0xEB, 0x01])]
     = Some (EddystoneUID ''01'' [] 235)"
  by code_simp

text \<open>
  C2. On the two test vectors the tx power comes back as the unsigned byte, 235 and
  236, not as the signed values \<open>-21\<close> and \<open>-20\<close>.
\<close>

theorem parse_eddystone_tx_power_unsigned:
  "parse_eddystone [(''0000feaa-0000-1000-8000-00805f9b34fb'',
                     [0x00, 0xEB] @ replicate 10 0x01 @ replicate 6 0x02)]
     = Some (EddystoneUID (concat (replicate 10 ''01'')) (concat (replicate 6 ''02'')) 235)
   \<and> parse_eddystone [(''0000feaa-0000-1000-8000-00805f9b34fb'',
                       [0x10, 0xEC] @ map of_char ''http://x'')]
     = Some (EddystoneURL (str ''http://x'') 236)"
  by code_simp

text \<open>Entries the loop passes over: another service, or an Eddystone entry whose frame
  type is neither \<open>0x00\<close> nor \<open>0x10\<close>.\<close>

lemma parse_eddystone_try_skip:
  assumes "\<forall>(u, d) \<in> set pre.
             \<not> startswith u eddystone_prefix \<or> (d \<noteq> [] \<and> hd d \<noteq> 0x00 \<and> hd d \<noteq> 0x10)"
  shows "parse_eddystone_try (pre @ rest) = parse_eddystone_try rest"
  using assms
proof (induction pre)
  case Nil
  then show ?case by simp
next
  case (Cons e pre)
  obtain u d where e: "e = (u, d)" by (cases e)
  from Cons.prems have rest: "parse_eddystone_try (pre @ rest) = parse_eddystone_try rest"
    by (intro Cons.IH) simp
  from Cons.prems e
  have "\<not> startswith u eddystone_prefix \<or> (d \<noteq> [] \<and> hd d \<noteq> 0x00 \<and> hd d \<noteq> 0x10)"
    by simp
  then show ?case
    by (cases d) (auto simp: e rest index_def)
qed

text \<open>An Eddystone entry of frame type \<open>0x00\<close> or \<open>0x10\<close> ends the loop, with a record
  or with an exception.\<close>

lemma parse_eddystone_try_stop:
  assumes "startswith u eddystone_prefix" "d \<noteq> []" "hd d = 0x00 \<or> hd d = 0x10"
  shows "parse_eddystone_try ((u, d) # post) = parse_eddystone_try [(u, d)]"
  using assms by (cases d) (auto simp: index_def)

text \<open>
  C4, as the code has it. The claim fails: an Eddystone entry with another frame type
  does not end the scan, and a later Eddystone entry is decoded.
\<close>

theorem parse_eddystone_later_entry_decoded:
  "parse_eddystone [(''0000feaa-1'', [0x20, 0x00]), (''0000feaa-2'', [0x10, 0xEC, 0x78])]
     = Some (EddystoneURL [0x78] 236)"
  by code_simp

text \<open>
  C4, amended. The decoder decodes only the first entry whose UUID starts with
  \<open>0000feaa-\<close> and whose frame type is \<open>0x00\<close> or \<open>0x10\<close>: when every entry before it is
  of another service or is a non-empty Eddystone entry of another frame type, the result
  is the result for that entry alone, whatever follows it; and when all entries are of
  that passed-over kind the result is \<^verbatim>\<open>None\<close>.
\<close>

theorem parse_eddystone_first_decodable:
  assumes "\<forall>(u, d) \<in> set pre.
             \<not> startswith u eddystone_prefix \<or> (d \<noteq> [] \<and> hd d \<noteq> 0x00 \<and> hd d \<noteq> 0x10)"
  shows "parse_eddystone pre = None \<and>
         (startswith u eddystone_prefix \<and> d \<noteq> [] \<and> (hd d = 0x00 \<or> hd d = 0x10) \<longrightarrow>
            parse_eddystone (pre @ (u, d) # post) = parse_eddystone [(u, d)])"
proof -
  have "parse_eddystone_try (pre @ []) = parse_eddystone_try []"
    using assms by (rule parse_eddystone_try_skip)
  then have "parse_eddystone pre = None" by (simp add: parse_eddystone_def)
  moreover have "parse_eddystone (pre @ (u, d) # post) = parse_eddystone [(u, d)]"
    if "startswith u eddystone_prefix" "d \<noteq> []" "hd d = 0x00 \<or> hd d = 0x10"
    using parse_eddystone_try_skip [OF assms, of "(u, d) # post"]
      parse_eddystone_try_stop [OF that, of post]
    by (simp add: parse_eddystone_def)
  ultimately show ?thesis by blast
qed

theorem parse_eddystone_first_decodable_witness:
  "parse_eddystone [(''0000180f-1'', [0x00, 0x64]), (''0000feaa-1'', [0x20, 0x00])] = None \<and>
   parse_eddystone
     ([(''0000180f-1'', [0x00, 0x64]), (''0000feaa-1'', [0x20, 0x00])]
      @ (''0000feaa-2'', [0x10, 0xEC, 0x78]) # [(''0000feaa-3'', [0x00, 0xEB, 0x01])])
     = Some (EddystoneURL [0x78] 236)"
proof -
  have pre: "\<forall>(u, d) \<in> set [(''0000180f-1'', [0x00, 0x64 :: byte]), (''0000feaa-1'', [0x20, 0x00])].
               \<not> startswith u eddystone_prefix \<or> (d \<noteq> [] \<and> hd d \<noteq> 0x00 \<and> hd d \<noteq> 0x10)"
    by (simp add: startswith_def eddystone_prefix_def)
  have one: "parse_eddystone [(''0000feaa-2'', [0x10, 0xEC, 0x78])] = Some (EddystoneURL [0x78] 236)"
    by code_simp
  have s: "startswith ''0000feaa-2'' eddystone_prefix"
    by (simp add: startswith_def eddystone_prefix_def)
  show ?thesis
    using parse_eddystone_first_decodable [OF pre, of "''0000feaa-2''" "[0x10, 0xEC, 0x78]"
        "[(''0000feaa-3'', [0x00, 0xEB, 0x01])]"] one s
    by simp
qed

section \<open>The range of a double\<close>

text \<open>The two thresholds against powers of ten and of two.\<close>

lemma DBL_UNDER_pos: "0 < DBL_UNDER"
  by (simp add: DBL_UNDER_def)

lemma DBL_OVER_big: "2 ^ 64 < DBL_OVER"
  by (simp add: DBL_OVER_def)

lemma DBL_UNDER_small: "DBL_UNDER < 1 / 2 ^ 64"
  by (simp add: DBL_UNDER_def)



lemma DBL_OVER_pos: "0 < DBL_OVER"
  using DBL_OVER_big by (simp add: less_trans [of 0 "2 ^ 64"])

lemma DBL_MAX_margin: "DBL_MAX + 32768 < DBL_OVER"
  by (simp add: DBL_MAX_def DBL_OVER_def)

lemma DBL_MAX_pos: "0 < DBL_MAX"
  by (simp add: DBL_MAX_def)

lemma DBL_OVER_lower: "(10::real) ^ 308 < DBL_OVER"
  by (simp add: DBL_OVER_def)

lemma DBL_OVER_upper: "DBL_OVER \<le> (10::real) ^ 309"
  by (simp add: DBL_OVER_def)


lemma DBL_UNDER_upper: "DBL_UNDER < 1 / (10::real) ^ 323"
  by (simp add: DBL_UNDER_def)

lemma to_double_0: "to_double 0 = Fin 0"
  using DBL_OVER_pos DBL_UNDER_pos by (simp add: to_double_def)

lemma to_double_Fin:
  assumes "DBL_UNDER < \<bar>r\<bar>" "\<bar>r\<bar> < DBL_OVER"
  shows "to_double r = Fin r"
  using assms by (auto simp: to_double_def)


lemma to_double_mid:
  assumes "1 / 2 ^ 64 \<le> \<bar>r\<bar>" "\<bar>r\<bar> \<le> 2 ^ 64"
  shows "to_double r = Fin r"
  using assms DBL_OVER_big DBL_UNDER_small by (intro to_double_Fin) linarith+

lemma to_double_cases:
  "to_double r = PInf \<and> DBL_OVER \<le> r \<or> to_double r = NInf \<and> r \<le> - DBL_OVER \<or>
   to_double r = Fin 0 \<and> \<bar>r\<bar> \<le> DBL_UNDER \<or>
   to_double r = Fin r \<and> DBL_UNDER < \<bar>r\<bar> \<and> \<bar>r\<bar> < DBL_OVER"
  using DBL_OVER_pos by (auto simp: to_double_def)

lemma to_double_FinD:
  assumes "to_double r = Fin s"
  shows "s = 0 \<or> s = r"
  using assms by (auto simp: to_double_def split: if_splits)

lemma pow10_mid:
  assumes "- 323 \<le> y" "y \<le> 308"
  shows "pow10 (Fin y) = Inr (Fin (10 powr y))"
proof -
  have "(10::real) powr y \<le> 10 powr 308"
    by (rule powr_mono) (use assms in simp_all)
  also have "(10::real) powr 308 = 10 ^ 308" by simp
  finally have up: "(10::real) powr y < DBL_OVER"
    using DBL_OVER_lower by simp
  have "1 / (10::real) ^ 323 = 10 powr (- 323)"
    by (simp add: powr_minus_divide)
  also have "\<dots> \<le> 10 powr y"
    by (rule powr_mono) (use assms in simp_all)
  finally have lo: "DBL_UNDER < 10 powr y"
    using DBL_UNDER_upper by simp
  have "to_double (10 powr y) = Fin (10 powr y)"
    by (rule to_double_Fin) (use up lo in simp_all)
  then show ?thesis using up by simp
qed

lemma pow10_over:
  assumes "309 \<le> y"
  shows "pow10 (Fin y) = Inl OverflowError"
proof -
  have "(10::real) ^ 309 = 10 powr 309" by simp
  also have "\<dots> \<le> 10 powr y"
    by (rule powr_mono) (use assms in simp_all)
  finally have "DBL_OVER \<le> 10 powr y"
    using DBL_OVER_upper by simp
  then show ?thesis by simp
qed


lemma pow10_no_raise:
  assumes "y \<le> 308"
  shows "\<exists>d. pow10 (Fin y) = Inr d"
proof -
  have "(10::real) powr y \<le> 10 powr 308"
    by (rule powr_mono) (use assms in simp_all)
  also have "(10::real) powr 308 = 10 ^ 308" by simp
  finally have "(10::real) powr y < DBL_OVER"
    using DBL_OVER_lower by simp
  then show ?thesis by simp
qed

lemma to_double_Fin_bound:
  assumes "to_double r = Fin r"
  shows "\<bar>r\<bar> < DBL_OVER"
  using assms DBL_OVER_pos by (auto simp: to_double_def split: if_splits)

lemma DBL_MAX_lt_OVER: "DBL_MAX < DBL_OVER"
  using DBL_MAX_margin by simp

lemma double_valueD:
  assumes "double_value p = Some r"
  shows "\<bar>r\<bar> \<le> DBL_MAX \<and> ((\<exists>k. p = PyInt k \<and> r = real_of_int k) \<or> p = PyFloat (Fin r))"
proof (cases p)
  case (PyInt k)
  with assms have k: "\<bar>k\<bar> \<le> 2 ^ 53" and r: "r = real_of_int k"
    by (auto split: if_splits)
  from k have "real_of_int \<bar>k\<bar> \<le> real_of_int (2 ^ 53)"
    by (simp only: of_int_le_iff)
  moreover have "(2::real) ^ 53 \<le> DBL_MAX" by (simp add: DBL_MAX_def)
  ultimately have "\<bar>r\<bar> \<le> DBL_MAX" using r by simp
  with PyInt r show ?thesis by simp
next
  case (PyFloat f)
  with assms show ?thesis by (cases f) (auto split: if_splits)
qed


text \<open>The quotient of the expression, for operands with finite values and a difference
  and a divisor inside the range.\<close>

lemma exponent_value:
  assumes m: "double_value mRSSI = Some m" and v: "double_value x = Some v"
    and n: "double_value txPower = Some n" and n0: "n \<noteq> 0"
    and d: "to_double (m - v) = Fin (m - v)" and c: "to_double (10 * n) = Fin (10 * n)"
  shows "\<exists>dd. num_sub mRSSI x = Inr dd \<and>
     (if is_int mRSSI \<and> is_int x \<and> is_int txPower
      then num_truediv dd (num_mul10 txPower) =
             (if DBL_OVER \<le> \<bar>(m - v) / (10 * n)\<bar> then Inl OverflowError
              else Inr (to_double ((m - v) / (10 * n))))
      else num_truediv dd (num_mul10 txPower) = Inr (to_double ((m - v) / (10 * n))))"
proof -
  note M = double_valueD [OF m] and V = double_valueD [OF v] and N = double_valueD [OF n]
  have bm: "\<bar>m\<bar> < DBL_OVER" and bv: "\<bar>v\<bar> < DBL_OVER"
    using M V DBL_MAX_lt_OVER by linarith+
  have bd: "\<bar>m - v\<bar> < DBL_OVER" using d by (rule to_double_Fin_bound)
  have bc: "\<bar>10 * n\<bar> < DBL_OVER" using c by (rule to_double_Fin_bound)
  have bc': "\<bar>n\<bar> * 10 < DBL_OVER" using bc by (simp add: abs_mult)
  from M V N show ?thesis
    using n0 d c bm bv bd bc bc'
    by (elim conjE disjE exE) (simp_all add: float_of_int_def abs_mult)
qed

lemma double_value_PyInt:
  assumes "\<bar>k\<bar> \<le> 2 ^ 53"
  shows "double_value (PyInt k) = Some (real_of_int k)"
  using assms by simp

lemma double_value_Fin:
  assumes "\<bar>r\<bar> \<le> 2 ^ 64"
  shows "double_value (PyFloat (Fin r)) = Some r"
proof -
  have "(2::real) ^ 64 \<le> DBL_MAX" by (simp add: DBL_MAX_def)
  with assms show ?thesis by simp
qed

text \<open>The expression for a finite quotient that is inside the range and whose power is
  not rounded to zero or to infinity.\<close>

lemma distance_mid:
  assumes "double_value mRSSI = Some m" "double_value x = Some v" "double_value txPower = Some n"
    and "n \<noteq> 0" "to_double (m - v) = Fin (m - v)" "to_double (10 * n) = Fin (10 * n)"
    and q: "to_double ((m - v) / (10 * n)) = Fin ((m - v) / (10 * n))"
    and r: "- 323 \<le> (m - v) / (10 * n)" "(m - v) / (10 * n) \<le> 308"
  shows "distance mRSSI x txPower = Inr (Fin (10 powr ((m - v) / (10 * n))))"
proof -
  let ?q = "(m - v) / (10 * n)"
  from exponent_value [OF assms(1-6)] obtain dd where sub: "num_sub mRSSI x = Inr dd"
    and dv: "if is_int mRSSI \<and> is_int x \<and> is_int txPower
      then num_truediv dd (num_mul10 txPower) =
             (if DBL_OVER \<le> \<bar>?q\<bar> then Inl OverflowError else Inr (to_double ?q))
      else num_truediv dd (num_mul10 txPower) = Inr (to_double ?q)"
    by blast
  have "num_truediv dd (num_mul10 txPower) = Inr (Fin ?q)"
    using dv q to_double_Fin_bound [OF q] by (simp split: if_splits)
  then have "distance mRSSI x txPower = pow10 (Fin ?q)"
    by (simp add: distance_def sub)
  with pow10_mid [OF r] show ?thesis by simp
qed

text \<open>The callers' reference \<open>-59\<close> and exponent 2 with the 16-bit sample \<open>-32768\<close>: the
  quotient is \<open>1635.45\<close>.\<close>

lemma distance_i16_min:
  "distance (PyInt (- 59)) (PyInt (- 32768)) (PyInt 2) = Inl OverflowError"
proof -
  have "distance (PyInt (- 59)) (PyInt (- 32768)) (PyInt 2) = pow10 (Fin (32709 / 20))"
    using DBL_OVER_big to_double_mid [of "32709 / 20"]
    by (simp add: distance_def del: pow10.simps)
  also have "\<dots> = Inl OverflowError"
    by (rule pow10_over) simp
  finally show ?thesis .
qed

section \<open>The distance formula\<close>




section \<open>The distance series\<close>

text \<open>When the expression cannot raise: finite operands, a nonzero divisor inside the
  range, a difference an int operand can be converted from, and an exact quotient of at
  most 308.\<close>

lemma pow10_to_double_no_raise:
  assumes "r \<le> 308"
  shows "\<exists>d. pow10 (to_double r) = Inr d"
  using to_double_cases [of r] pow10_no_raise [OF assms] pow10_no_raise [of 0]
  by auto

lemma distance_no_raise:
  assumes m: "double_value mRSSI = Some m" and v: "double_value x = Some v"
    and n: "double_value txPower = Some n" and n0: "n \<noteq> 0"
    and c: "to_double (10 * n) = Fin (10 * n)"
    and d: "\<bar>m - v\<bar> < DBL_OVER"
    and q: "(m - v) / (10 * n) \<le> 308"
  shows "\<exists>d. distance mRSSI x txPower = Inr d"
proof (cases "to_double (m - v) = Fin (m - v)")
  case True
  let ?q = "(m - v) / (10 * n)"
  from exponent_value [OF m v n n0 True c] obtain dd where sub: "num_sub mRSSI x = Inr dd"
    and dv: "if is_int mRSSI \<and> is_int x \<and> is_int txPower
      then num_truediv dd (num_mul10 txPower) =
             (if DBL_OVER \<le> \<bar>?q\<bar> then Inl OverflowError else Inr (to_double ?q))
      else num_truediv dd (num_mul10 txPower) = Inr (to_double ?q)"
    by blast
  have "\<bar>?q\<bar> < DBL_OVER" if "is_int txPower"
  proof -
    from that double_valueD [OF n] obtain k where "n = real_of_int k"
      by (cases txPower) auto
    with n0 have "1 \<le> \<bar>n\<bar>" by (cases "k = 0") (simp_all add: abs_if)
    then have c1: "1 \<le> \<bar>10 * n\<bar>" by (simp add: abs_mult)
    have "\<bar>m - v\<bar> / \<bar>10 * n\<bar> \<le> \<bar>m - v\<bar> / 1"
      by (rule divide_left_mono) (use c1 in simp_all)
    then have "\<bar>?q\<bar> \<le> \<bar>m - v\<bar>"
      by (simp only: abs_divide div_by_1)
    with d show ?thesis by simp
  qed
  with dv have "num_truediv dd (num_mul10 txPower) = Inr (to_double ?q)"
    by (auto split: if_splits)
  with pow10_to_double_no_raise [OF q] show ?thesis
    by (simp add: distance_def sub)
next
  case False
  then have small: "to_double (m - v) = Fin 0" and nz: "m \<noteq> v"
    using to_double_cases [of "m - v"] d to_double_0 by (auto simp: abs_if split: if_splits)
  from small nz have tiny: "\<bar>m - v\<bar> \<le> DBL_UNDER"
    using to_double_cases [of "m - v"] by auto
  note M = double_valueD [OF m] and V = double_valueD [OF v] and N = double_valueD [OF n]
  have bm: "\<bar>m\<bar> < DBL_OVER" and bv: "\<bar>v\<bar> < DBL_OVER"
    using M V DBL_MAX_lt_OVER by linarith+
  have bc: "\<bar>n\<bar> * 10 < DBL_OVER"
    using to_double_Fin_bound [OF c] by (simp add: abs_mult)
  have notint: "\<not> (\<exists>a b. m = real_of_int a \<and> v = real_of_int b)"
  proof
    assume "\<exists>a b. m = real_of_int a \<and> v = real_of_int b"
    then obtain a b where ab: "m = real_of_int a" "v = real_of_int b" by blast
    with nz have "a - b \<noteq> 0" by auto
    then have "1 \<le> \<bar>a - b\<bar>" by linarith
    then have "1 \<le> \<bar>real_of_int (a - b)\<bar>" by linarith
    with ab have "1 \<le> \<bar>m - v\<bar>" by simp
    with tiny DBL_UNDER_small show False by simp
  qed
  have "distance mRSSI x txPower = pow10 (Fin 0)"
    using M V N notint n0 small c bm bv bc to_double_0
    by (elim conjE disjE exE) (auto simp: distance_def float_of_int_def abs_mult simp del: pow10.simps)
  with pow10_no_raise [of 0] show ?thesis by simp
qed

lemma stdev_nonneg:
  assumes "stdev xs = Inr sd"
  shows "0 \<le> sd"
proof -
  let ?s = "sqrt ((\<Sum>x\<leftarrow>xs. (real_of_int x - mean xs) ^ 2) / real (length xs - 1))"
  have "0 \<le> (\<Sum>x\<leftarrow>xs. (real_of_int x - mean xs) ^ 2)"
    by (rule sum_list_nonneg) auto
  then have s0: "0 \<le> ?s" by simp
  from assms have "to_double ?s = Fin sd"
    by (auto simp: stdev_def split: if_splits pyfloat.splits)
  from to_double_FinD [OF this] s0 show ?thesis by auto
qed

lemma sum_list_abs_bound:
  fixes xs :: "int list"
  assumes "\<forall>x\<in>set xs. \<bar>x\<bar> \<le> B"
  shows "\<bar>sum_list xs\<bar> \<le> int (length xs) * B"
  using assms
proof (induction xs)
  case Nil
  then show ?case by simp
next
  case (Cons x xs)
  then have "\<bar>sum_list xs\<bar> \<le> int (length xs) * B" "\<bar>x\<bar> \<le> B" by simp_all
  then show ?case by (simp add: algebra_simps)
qed

lemma sum_list_map_bound:
  fixes f :: "'a \<Rightarrow> real"
  assumes "\<forall>x\<in>set xs. f x \<le> c"
  shows "sum_list (map f xs) \<le> real (length xs) * c"
  using assms
proof (induction xs)
  case Nil
  then show ?case by simp
next
  case (Cons x xs)
  then have "sum_list (map f xs) \<le> real (length xs) * c" "f x \<le> c" by simp_all
  then show ?case by (simp add: algebra_simps)
qed

text \<open>On 16-bit samples the standard deviation is far inside the range.\<close>

lemma stdev_i16:
  assumes len: "2 \<le> length xs" and b: "\<forall>x\<in>set xs. \<bar>x\<bar> \<le> 32768"
  shows "\<exists>sd. stdev xs = Inr sd"
proof -
  let ?n = "length xs"
  let ?ss = "\<Sum>x\<leftarrow>xs. (real_of_int x - mean xs) ^ 2"
  have n0: "0 < real ?n" using len by (cases xs) simp_all
  have "\<bar>sum_list xs\<bar> \<le> int ?n * 32768"
    using b by (rule sum_list_abs_bound)
  then have "real_of_int \<bar>sum_list xs\<bar> \<le> real_of_int (int ?n * 32768)"
    by (simp only: of_int_le_iff)
  then have "\<bar>real_of_int (sum_list xs)\<bar> \<le> real ?n * 32768"
    by simp
  then have mb: "\<bar>mean xs\<bar> \<le> 32768"
    using n0 by (simp add: mean_def divide_le_eq)
  have sq: "(real_of_int x - mean xs) ^ 2 \<le> 65536 ^ 2" if "x \<in> set xs" for x
  proof -
    from b that have "\<bar>x\<bar> \<le> 32768" by blast
    then have "\<bar>real_of_int x\<bar> \<le> 32768" by linarith
    with mb have "\<bar>real_of_int x - mean xs\<bar> \<le> 65536" by linarith
    then have "\<bar>real_of_int x - mean xs\<bar> ^ 2 \<le> 65536 ^ 2"
      by (intro power_mono) simp_all
    then show ?thesis by simp
  qed
  have "?ss \<le> real ?n * 65536 ^ 2"
    by (rule sum_list_map_bound) (use sq in blast)
  moreover have "real ?n \<le> 2 * real (?n - 1)" using len by simp
  then have "real ?n * 65536 ^ 2 \<le> (2 * real (?n - 1)) * (65536 ^ 2 :: real)"
    by (intro mult_right_mono) simp_all
  ultimately have "?ss \<le> (2 * 65536 ^ 2) * real (?n - 1)"
    by (simp add: mult_ac)
  moreover have n1: "0 < real (?n - 1)" using len by simp
  ultimately have var: "?ss / real (?n - 1) \<le> 2 * 65536 ^ 2"
    by (simp add: divide_le_eq)
  define s where "s = sqrt (?ss / real (?n - 1))"
  have up: "s \<le> 2 ^ 17"
    unfolding s_def by (rule real_le_lsqrt) (use var in simp_all)
  have "0 \<le> ?ss"
    by (rule sum_list_nonneg) auto
  then have lo: "0 \<le> s"
    unfolding s_def by simp
  have "(2::real) ^ 17 < 2 ^ 64" by simp
  with up lo DBL_OVER_big have "\<not> DBL_OVER \<le> s" "\<not> s \<le> - DBL_OVER"
    by linarith+
  then have "to_double s = (if \<bar>s\<bar> \<le> DBL_UNDER then Fin 0 else Fin s)"
    by (simp add: to_double_def)
  then have "\<exists>sd. (case to_double s of Fin sd \<Rightarrow> Inr sd | _ \<Rightarrow> Inl OverflowError) = (Inr sd :: error + real)"
    by (cases "\<bar>s\<bar> \<le> DBL_UNDER") simp_all
  moreover have "\<not> length xs < 2" using len by simp
  ultimately show ?thesis
    unfolding stdev_def s_def by (simp only: if_False)
qed

text \<open>One step of the filter: the gain lies between 0 and 1, so the division never
  fails and the new estimate lies between the old estimate and the sample.\<close>

lemma KalmanFilter_filter_step:
  assumes q: "0 < process_noise kf" and r: "0 \<le> measurement_noise kf"
    and c: "estimate kf \<noteq> None \<longrightarrow> 0 \<le> error_covariance kf"
  shows "\<exists>g kf'. 0 \<le> g \<and> g \<le> 1 \<and>
      KalmanFilter_filter kf x =
        Inr ((case estimate kf of None \<Rightarrow> x | Some e \<Rightarrow> e)
               + g * (x - (case estimate kf of None \<Rightarrow> x | Some e \<Rightarrow> e)), kf') \<and>
      process_noise kf' = process_noise kf \<and> measurement_noise kf' = measurement_noise kf \<and>
      estimate kf' = Some ((case estimate kf of None \<Rightarrow> x | Some e \<Rightarrow> e)
               + g * (x - (case estimate kf of None \<Rightarrow> x | Some e \<Rightarrow> e))) \<and>
      0 \<le> error_covariance kf'"
proof -
  define cov0 where "cov0 = (case estimate kf of None \<Rightarrow> 1 | Some e \<Rightarrow> error_covariance kf)"
  define cov where "cov = cov0 + process_noise kf"
  define g where "g = cov / (cov + measurement_noise kf)"
  have cov0: "0 \<le> cov0" using c by (auto simp: cov0_def split: option.splits)
  have cov: "0 < cov" using cov0 q by (simp add: cov_def)
  have den: "0 < cov + measurement_noise kf" using cov r by simp
  have g0: "0 \<le> g" using cov den by (simp add: g_def)
  have g1: "g \<le> 1" using cov den r by (simp add: g_def)
  have p: "0 \<le> cov * (1 - g)" using cov g1 by simp
  have "KalmanFilter_filter kf x =
        Inr ((case estimate kf of None \<Rightarrow> x | Some e \<Rightarrow> e)
               + g * (x - (case estimate kf of None \<Rightarrow> x | Some e \<Rightarrow> e)),
             kf\<lparr>estimate := Some ((case estimate kf of None \<Rightarrow> x | Some e \<Rightarrow> e)
               + g * (x - (case estimate kf of None \<Rightarrow> x | Some e \<Rightarrow> e))),
                error_covariance := cov * (1 - g)\<rparr>)"
    using den by (simp add: KalmanFilter_filter_def truediv_def Let_def g_def cov_def cov0_def)
  then show ?thesis using g0 g1 p by force
qed

lemma exponent_convex:
  fixes m a b c g B :: real
  assumes a: "(m - a) / c \<le> B" and b: "(m - b) / c \<le> B" and g0: "0 \<le> g" and g1: "g \<le> 1"
  shows "(m - (a + g * (b - a))) / c \<le> B"
proof -
  have "(m - (a + g * (b - a))) / c = (1 - g) * ((m - a) / c) + g * ((m - b) / c)"
    by (simp add: divide_inverse algebra_simps)
  also have "\<dots> \<le> (1 - g) * B + g * B"
    by (intro add_mono mult_left_mono a b) (use g0 g1 in simp_all)
  also have "\<dots> = B" by (simp add: algebra_simps)
  finally show ?thesis .
qed

lemma abs_convex:
  fixes a b g B :: real
  assumes a: "\<bar>a\<bar> \<le> B" and b: "\<bar>b\<bar> \<le> B" and g0: "0 \<le> g" and g1: "g \<le> 1"
  shows "\<bar>a + g * (b - a)\<bar> \<le> B"
proof -
  have "(0 - a) / (- 1) \<le> B" "(0 - b) / (- 1) \<le> B" using a b by simp_all
  from exponent_convex [OF this g0 g1] have up: "a + g * (b - a) \<le> B" by simp
  have "(0 - a) / 1 \<le> B" "(0 - b) / 1 \<le> B" using a b by simp_all
  from exponent_convex [OF this g0 g1] have "- (a + g * (b - a)) \<le> B" by simp
  with up show ?thesis by simp
qed

lemma double_value_i16:
  assumes "\<bar>r\<bar> \<le> 32768"
  shows "double_value (PyFloat (Fin r)) = Some r"
  using assms double_value_Fin [of r] by simp

lemma double_value_i16_int:
  assumes "\<bar>k\<bar> \<le> 32768"
  shows "double_value (PyInt k) = Some (real_of_int k)"
  using assms double_value_PyInt [of k] by simp

lemma distance_loop_succeeds:
  assumes "0 < process_noise kf" "0 \<le> measurement_noise kf"
    and "estimate kf \<noteq> None \<longrightarrow> 0 \<le> error_covariance kf"
    and m: "double_value mRSSI = Some m" and n: "double_value txPower = Some n"
    and n0: "n \<noteq> 0" and c: "to_double (10 * n) = Fin (10 * n)"
    and "\<forall>x\<in>set xs. \<bar>x\<bar> \<le> 32768 \<and> (m - real_of_int x) / (10 * n) \<le> 308"
    and "\<forall>e. estimate kf = Some e \<longrightarrow> \<bar>e\<bar> \<le> 32768 \<and> (m - e) / (10 * n) \<le> 308"
  shows "\<exists>ds. distance_loop kf mRSSI txPower xs raw0 filt0 = Inr ds \<and>
           length (raw ds) = length raw0 + length xs \<and>
           length (filtered ds) = length filt0 + length xs"
  using assms(1-3,8,9)
proof (induction xs arbitrary: kf raw0 filt0)
  case Nil
  then show ?case by simp
next
  case (Cons x xs)
  let ?x = "real_of_int x"
  let ?e0 = "case estimate kf of None \<Rightarrow> ?x | Some e \<Rightarrow> e"
  from KalmanFilter_filter_step [OF Cons.prems(1-3), of ?x]
  obtain g kf' where g: "0 \<le> g" "g \<le> 1"
    and step: "KalmanFilter_filter kf ?x = Inr (?e0 + g * (?x - ?e0), kf')"
    and kf': "process_noise kf' = process_noise kf" "measurement_noise kf' = measurement_noise kf"
      "estimate kf' = Some (?e0 + g * (?x - ?e0))" "0 \<le> error_covariance kf'"
    by blast
  let ?est = "?e0 + g * (?x - ?e0)"
  have bx: "\<bar>x\<bar> \<le> 32768" and ex: "(m - ?x) / (10 * n) \<le> 308"
    using Cons.prems(4) by simp_all
  have bx': "\<bar>?x\<bar> \<le> 32768" using bx by linarith
  have be0: "\<bar>?e0\<bar> \<le> 32768" and e0: "(m - ?e0) / (10 * n) \<le> 308"
    using Cons.prems(5) bx' ex by (cases "estimate kf"; simp)+
  have best: "\<bar>?est\<bar> \<le> 32768"
    by (rule abs_convex [OF be0 bx' g])
  have est: "(m - ?est) / (10 * n) \<le> 308"
    by (rule exponent_convex [OF e0 ex g])
  have bm: "\<bar>m\<bar> \<le> DBL_MAX" using double_valueD [OF m] by simp
  have dx: "\<bar>m - ?x\<bar> < DBL_OVER" using bm bx' DBL_MAX_margin by linarith
  have dest: "\<bar>m - ?est\<bar> < DBL_OVER" using bm best DBL_MAX_margin by linarith
  from distance_no_raise [OF m double_value_i16_int [OF bx] n n0 c dx ex]
  obtain d1 where d1: "distance mRSSI (PyInt x) txPower = Inr d1" by blast
  from distance_no_raise [OF m double_value_i16 [OF best] n n0 c dest est]
  obtain d2 where d2: "distance mRSSI (PyFloat (Fin ?est)) txPower = Inr d2" by blast
  have "\<exists>ds. distance_loop kf' mRSSI txPower xs (raw0 @ [d1]) (filt0 @ [d2]) = Inr ds \<and>
           length (raw ds) = length (raw0 @ [d1]) + length xs \<and>
           length (filtered ds) = length (filt0 @ [d2]) + length xs"
    using Cons.prems kf' best est by (intro Cons.IH) simp_all
  then show ?case
    by (simp add: step d1 d2)
qed

lemma stdev_min2: "stdev [- 32768, - 32768] = Inr 0"
  by (simp add: stdev_def mean_def to_double_0)

text \<open>
  C7, as the code has it. The claim fails in its last part: a history of two samples
  does not always succeed. With the callers' reference \<open>-59\<close> and exponent 2, the history
  \<open>-32768, -32768\<close> of 16-bit samples fails with \<^verbatim>\<open>OverflowError\<close> at the first raw
  distance.
\<close>

theorem distanceCalculate_overflow_fails:
  "distanceCalculate [''EC:81:F6:64:F0:86'' \<mapsto> [- 32768, - 32768]] ''EC:81:F6:64:F0:86''
     (PyInt (- 59)) (PyInt 2) = Inl OverflowError"
  by (simp add: distanceCalculate_def getitem_def stdev_min2 KalmanFilter_init_def
      KalmanFilter_filter_def truediv_def Let_def distance_i16_min)

text \<open>
  C7, amended. \<^verbatim>\<open>distanceCalculate\<close> fails with \<^verbatim>\<open>KeyError\<close> for an address that is
  not in the dictionary and with \<^verbatim>\<open>StatisticsError\<close> for a history of fewer than two
  samples. For a history of at least two 16-bit samples, a finite reference \<open>m\<close> and a
  finite path-loss exponent \<open>n \<noteq> 0\<close> (finite floats, or ints up to \<open>2\<^sup>5\<^sup>3\<close>) with \<open>10 \<times> n\<close>
  inside the range of the finite doubles, it succeeds whenever the quotient
  \<open>(m - x) / (10 \<times> n)\<close> of every sample \<open>x\<close> is at most 308, and the two series have the
  length of the history.
\<close>

theorem distanceCalculate_outcomes:
  "(rssi_dict mac = None \<longrightarrow> distanceCalculate rssi_dict mac mRSSI txPower = Inl KeyError) \<and>
   (\<forall>h. rssi_dict mac = Some h \<and> length h < 2 \<longrightarrow>
        distanceCalculate rssi_dict mac mRSSI txPower = Inl StatisticsError) \<and>
   (\<forall>h m n. rssi_dict mac = Some h \<and> 2 \<le> length h \<and>
        (\<forall>x\<in>set h. - 32768 \<le> x \<and> x \<le> 32767) \<and>
        double_value mRSSI = Some m \<and> double_value txPower = Some n \<and> n \<noteq> 0 \<and>
        to_double (10 * n) = Fin (10 * n) \<and>
        (\<forall>x\<in>set h. (m - real_of_int x) / (10 * n) \<le> 308) \<longrightarrow>
        (\<exists>ds. distanceCalculate rssi_dict mac mRSSI txPower = Inr ds \<and>
              length (raw ds) = length h \<and> length (filtered ds) = length h))"
proof (intro conjI allI impI)
  assume "rssi_dict mac = None"
  then show "distanceCalculate rssi_dict mac mRSSI txPower = Inl KeyError"
    by (simp add: distanceCalculate_def getitem_def)
next
  fix h assume "rssi_dict mac = Some h \<and> length h < 2"
  then show "distanceCalculate rssi_dict mac mRSSI txPower = Inl StatisticsError"
    by (simp add: distanceCalculate_def getitem_def stdev_def)
next
  fix h m n
  assume a: "rssi_dict mac = Some h \<and> 2 \<le> length h \<and>
        (\<forall>x\<in>set h. - 32768 \<le> x \<and> x \<le> 32767) \<and>
        double_value mRSSI = Some m \<and> double_value txPower = Some n \<and> n \<noteq> 0 \<and>
        to_double (10 * n) = Fin (10 * n) \<and>
        (\<forall>x\<in>set h. (m - real_of_int x) / (10 * n) \<le> 308)"
  then have b: "\<forall>x\<in>set h. \<bar>x\<bar> \<le> 32768" by auto
  from a stdev_i16 [OF _ b] obtain sd where sd: "stdev h = Inr sd" by blast
  have sd0: "0 \<le> sd" using sd by (rule stdev_nonneg)
  have "\<exists>ds. distance_loop (KalmanFilter_init 0.008 sd) mRSSI txPower h [] [] = Inr ds \<and>
           length (raw ds) = length ([]::pyfloat list) + length h \<and>
           length (filtered ds) = length ([]::pyfloat list) + length h"
    using a b sd0 by (intro distance_loop_succeeds [of _ _ m _ n]) (simp_all add: KalmanFilter_init_def)
  then show "\<exists>ds. distanceCalculate rssi_dict mac mRSSI txPower = Inr ds \<and>
              length (raw ds) = length h \<and> length (filtered ds) = length h"
    using a sd by (simp add: distanceCalculate_def getitem_def)
qed

theorem distanceCalculate_outcomes_witness:
  "distanceCalculate Map.empty ''EC:81:F6:64:F0:86'' (PyInt (- 59)) (PyInt 2) = Inl KeyError \<and>
   distanceCalculate [''EC:81:F6:64:F0:86'' \<mapsto> [- 60]] ''EC:81:F6:64:F0:86'' (PyInt (- 59)) (PyInt 2)
     = Inl StatisticsError \<and>
   (\<exists>ds. distanceCalculate [''EC:81:F6:64:F0:86'' \<mapsto> [- 60, - 79]] ''EC:81:F6:64:F0:86''
            (PyInt (- 59)) (PyInt 2) = Inr ds \<and>
         length (raw ds) = 2 \<and> length (filtered ds) = 2)"
proof -
  have i59: "double_value (PyInt (- 59)) = Some (- 59)"
    using double_value_PyInt [of "- 59"] by simp
  have i2: "double_value (PyInt 2) = Some 2"
    using double_value_PyInt [of 2] by simp
  have t20: "to_double (10 * 2) = Fin (10 * 2)"
    by (rule to_double_mid) simp_all
  have a: "distanceCalculate Map.empty ''EC:81:F6:64:F0:86'' (PyInt (- 59)) (PyInt 2) = Inl KeyError"
    using distanceCalculate_outcomes [of Map.empty "''EC:81:F6:64:F0:86''" "PyInt (- 59)" "PyInt 2"]
    by simp
  have b: "distanceCalculate [''EC:81:F6:64:F0:86'' \<mapsto> [- 60]] ''EC:81:F6:64:F0:86''
      (PyInt (- 59)) (PyInt 2) = Inl StatisticsError"
    using distanceCalculate_outcomes [of "[''EC:81:F6:64:F0:86'' \<mapsto> [- 60]]"
        "''EC:81:F6:64:F0:86''" "PyInt (- 59)" "PyInt 2"]
    by simp
  have c: "\<exists>ds. distanceCalculate [''EC:81:F6:64:F0:86'' \<mapsto> [- 60, - 79]] ''EC:81:F6:64:F0:86''
            (PyInt (- 59)) (PyInt 2) = Inr ds \<and>
         length (raw ds) = 2 \<and> length (filtered ds) = 2"
    using distanceCalculate_outcomes [of "[''EC:81:F6:64:F0:86'' \<mapsto> [- 60, - 79]]"
        "''EC:81:F6:64:F0:86''" "PyInt (- 59)" "PyInt 2"] i59 i2 t20
    by (simp add: numeral_2_eq_2)
  show ?thesis using a b c by blast
qed

section \<open>Extending a history\<close>

text \<open>The loop only appends to its two arrays, and what it has appended after the
  samples \<open>xs\<close> is not touched by the samples that follow.\<close>

lemma distance_loop_extends:
  "distance_loop kf m t xs raw0 filt0 = Inr ds \<Longrightarrow>
   \<exists>r f. raw ds = raw0 @ r \<and> filtered ds = filt0 @ f \<and> length r = length xs \<and> length f = length xs"
proof (induction xs arbitrary: kf raw0 filt0)
  case Nil
  then show ?case by auto
next
  case (Cons x xs)
  from Cons.prems obtain kf' d1 d2 where
    "distance_loop kf' m t xs (raw0 @ [d1]) (filt0 @ [d2]) = Inr ds"
    by (auto split: sum.splits prod.splits)
  from Cons.IH [OF this] show ?case by auto
qed

lemma distance_loop_prefix:
  "distance_loop kf m t (xs @ ys) raw0 filt0 = Inr ds \<Longrightarrow>
   distance_loop kf m t xs raw0 filt0 =
     Inr \<lparr>raw = take (length raw0 + length xs) (raw ds),
          filtered = take (length filt0 + length xs) (filtered ds)\<rparr>"
proof (induction xs arbitrary: kf raw0 filt0)
  case Nil
  from distance_loop_extends [OF Nil [simplified]] show ?case by auto
next
  case (Cons x xs)
  from Cons.prems obtain fv kf' d1 d2 where
    step: "KalmanFilter_filter kf (real_of_int x) = Inr (fv, kf')"
      "distance m (PyInt x) t = Inr d1" "distance m (PyFloat (Fin fv)) t = Inr d2"
    and rest: "distance_loop kf' m t (xs @ ys) (raw0 @ [d1]) (filt0 @ [d2]) = Inr ds"
    by (auto split: sum.splits prod.splits)
  from Cons.IH [OF rest] show ?case by (simp add: step)
qed

lemma distance_loop_first:
  assumes "distance_loop kf m t (x # xs) raw0 filt0 = Inr ds"
    and "KalmanFilter_filter kf (real_of_int x) = Inr (fv, kf')"
  shows "\<exists>dr df. distance m (PyInt x) t = Inr dr \<and> distance m (PyFloat (Fin fv)) t = Inr df"
  using assms by (auto split: sum.splits)

lemma distance_loop_constant:
  assumes "0 < process_noise kf" "0 \<le> measurement_noise kf"
    and "estimate kf \<noteq> None \<longrightarrow> 0 \<le> error_covariance kf"
    and "estimate kf = None \<or> estimate kf = Some (real_of_int c)"
    and "distance m (PyInt c) t = Inr dr"
    and "distance m (PyFloat (Fin (real_of_int c))) t = Inr df"
  shows "distance_loop kf m t (replicate k c) raw0 filt0 =
           Inr \<lparr>raw = raw0 @ replicate k dr, filtered = filt0 @ replicate k df\<rparr>"
  using assms
proof (induction k arbitrary: kf raw0 filt0)
  case 0
  then show ?case by simp
next
  case (Suc k)
  let ?e0 = "case estimate kf of None \<Rightarrow> real_of_int c | Some e \<Rightarrow> e"
  have e0: "?e0 = real_of_int c" using Suc.prems(4) by auto
  from KalmanFilter_filter_step [OF Suc.prems(1-3), of "real_of_int c"]
  obtain kf' where step: "KalmanFilter_filter kf (real_of_int c) = Inr (real_of_int c, kf')"
    and kf': "process_noise kf' = process_noise kf" "measurement_noise kf' = measurement_noise kf"
      "estimate kf' = Some (real_of_int c)" "0 \<le> error_covariance kf'"
    unfolding e0 by auto
  have "distance_loop kf' m t (replicate k c) (raw0 @ [dr]) (filt0 @ [df]) =
           Inr \<lparr>raw = (raw0 @ [dr]) @ replicate k dr, filtered = (filt0 @ [df]) @ replicate k df\<rparr>"
    using Suc.prems kf' by (intro Suc.IH) simp_all
  then show ?case
    by (simp add: step Suc.prems(5,6) replicate_app_Cons_same)
qed

lemma sqrt_100: "sqrt 100 = 10"
  by (rule real_sqrt_unique) simp_all

lemma stdev_const3: "stdev [- 60, - 60, - 60] = Inr 0"
  by (simp add: stdev_def mean_def to_double_0)

lemma stdev_ext4: "stdev [- 60, - 60, - 60, - 40] = Inr 10"
  using to_double_mid [of 10] by (simp add: stdev_def mean_def sqrt_100)

text \<open>The expression for the callers' reference \<open>-59\<close> and exponent 2, and the
  estimates for the two-sample prefix \<open>-66, -63\<close> under the measurement noises 3 and 3.5,
  the standard deviations of \<open>-66, -63, -60\<close> and of \<open>-66, -63, -60, -58\<close>.\<close>

lemma distance_59_2:
  assumes v: "double_value x = Some v"
    and lo: "1 / 2 ^ 32 \<le> \<bar>- 59 - v\<bar>" and hi: "\<bar>- 59 - v\<bar> \<le> 2 ^ 12"
  shows "distance (PyInt (- 59)) x (PyInt 2) = Inr (Fin (10 powr ((- 59 - v) / 20)))"
proof -
  have i59: "double_value (PyInt (- 59)) = Some (- 59)"
    using double_value_PyInt [of "- 59"] by simp
  have i2: "double_value (PyInt 2) = Some 2"
    using double_value_PyInt [of 2] by simp
  have t20: "to_double (10 * 2) = Fin (10 * 2)"
    by (rule to_double_mid) simp_all
  have d: "to_double (- 59 - v) = Fin (- 59 - v)"
    by (rule to_double_mid) (use lo hi in simp_all)
  have q: "to_double ((- 59 - v) / (10 * 2)) = Fin ((- 59 - v) / (10 * 2))"
    by (rule to_double_mid) (use lo hi in simp_all)
  have r: "- 323 \<le> (- 59 - v) / (10 * 2)" "(- 59 - v) / (10 * 2) \<le> 308"
    using hi by (simp_all add: abs_le_iff)
  from distance_mid [OF i59 v i2 _ d t20 q r] show ?thesis by simp
qed

lemma sqrt_9: "sqrt 9 = 3"
  by (rule real_sqrt_unique) simp_all

lemma sqrt_49_4: "sqrt (49 / 4) = 7 / 2"
  by (rule real_sqrt_unique) (simp_all add: power2_eq_square)

lemma stdev_h3: "stdev [- 66, - 63, - 60] = Inr 3"
  using to_double_mid [of 3] by (simp add: stdev_def mean_def sqrt_9)

lemma stdev_h4: "stdev [- 66, - 63, - 60, - 58] = Inr (7 / 2)"
  using to_double_mid [of "7 / 2"] by (simp add: stdev_def mean_def power2_eq_square sqrt_49_4)

lemma raw_66: "distance (PyInt (- 59)) (PyInt (- 66)) (PyInt 2) = Inr (Fin (10 powr (7 / 20)))"
  using distance_59_2 [of "PyInt (- 66)" "- 66"] double_value_PyInt [of "- 66"] by simp

lemma filtered_66:
  "distance (PyInt (- 59)) (PyFloat (Fin (- 66))) (PyInt 2) = Inr (Fin (10 powr (7 / 20)))"
  using distance_59_2 [of "PyFloat (Fin (- 66))" "- 66"] double_value_Fin [of "- 66"] by simp

lemma raw_63: "distance (PyInt (- 59)) (PyInt (- 63)) (PyInt 2) = Inr (Fin (10 powr (1 / 5)))"
  using distance_59_2 [of "PyInt (- 63)" "- 63"] double_value_PyInt [of "- 63"] by simp

lemma filtered_3:
  "distance (PyInt (- 59)) (PyFloat (Fin (- 5136021 / 78542))) (PyInt 2)
     = Inr (Fin (10 powr (502043 / 1570840)))"
  using distance_59_2 [of "PyFloat (Fin (- 5136021 / 78542))" "- 5136021 / 78542"]
    double_value_Fin [of "- 5136021 / 78542"] by simp

lemma filtered_7_2:
  "distance (PyInt (- 59)) (PyFloat (Fin (- 1614648 / 24671))) (PyInt 2)
     = Inr (Fin (10 powr (159059 / 493420)))"
  using distance_59_2 [of "PyFloat (Fin (- 1614648 / 24671))" "- 1614648 / 24671"]
    double_value_Fin [of "- 1614648 / 24671"] by simp

lemma two_steps_3:
  "distance_loop (KalmanFilter_init 0.008 3) (PyInt (- 59)) (PyInt 2) [- 66, - 63] [] [] =
     Inr \<lparr>raw = [Fin (10 powr (7 / 20)), Fin (10 powr (1 / 5))],
          filtered = [Fin (10 powr (7 / 20)), Fin (10 powr (502043 / 1570840))]\<rparr>"
  using raw_66 filtered_66 raw_63 filtered_3
  by (simp add: KalmanFilter_init_def KalmanFilter_filter_def truediv_def Let_def)

lemma two_steps_7_2:
  "distance_loop (KalmanFilter_init 0.008 (7 / 2)) (PyInt (- 59)) (PyInt 2) [- 66, - 63] [] [] =
     Inr \<lparr>raw = [Fin (10 powr (7 / 20)), Fin (10 powr (1 / 5))],
          filtered = [Fin (10 powr (7 / 20)), Fin (10 powr (159059 / 493420))]\<rparr>"
  using raw_66 filtered_66 raw_63 filtered_7_2
  by (simp add: KalmanFilter_init_def KalmanFilter_filter_def truediv_def Let_def)

lemma powr_differ: "Fin (10 powr (502043 / 1570840)) \<noteq> Fin (10 powr (159059 / 493420))"
  by (simp add: powr_inj)

lemma params_59_2:
  "double_value (PyInt (- 59)) = Some (- 59)" "double_value (PyInt 2) = Some 2"
  "to_double (10 * 2) = Fin (10 * 2)"
proof -
  show "double_value (PyInt (- 59)) = Some (- 59)"
    using double_value_PyInt [of "- 59"] by simp
  show "double_value (PyInt 2) = Some 2"
    using double_value_PyInt [of 2] by simp
  show "to_double (10 * 2) = Fin (10 * 2)"
    by (rule to_double_mid) simp_all
qed

text \<open>
  C3, as the code has it. The claim fails: the measurement noise is the standard
  deviation of the whole history, so a later sample changes earlier filtered values. For
  the reference \<open>-59\<close> and the exponent 2, the histories \<open>-66, -63, -60\<close> and
  \<open>-66, -63, -60, -58\<close> both succeed and differ in the filtered distance at index 1.
\<close>

theorem extension_changes_earlier_filtered:
  "\<exists>ds1 ds2.
     distanceCalculate [''EC:81:F6:64:F0:86'' \<mapsto> [- 66, - 63, - 60]] ''EC:81:F6:64:F0:86''
       (PyInt (- 59)) (PyInt 2) = Inr ds1 \<and>
     distanceCalculate [''EC:81:F6:64:F0:86'' \<mapsto> [- 66, - 63, - 60, - 58]] ''EC:81:F6:64:F0:86''
       (PyInt (- 59)) (PyInt 2) = Inr ds2 \<and>
     filtered ds1 ! 1 \<noteq> filtered ds2 ! 1"
proof -
  define p :: "int list" where "p = [- 66, - 63]"
  let ?K1 = "KalmanFilter_init 0.008 3" and ?K2 = "KalmanFilter_init 0.008 (7 / 2)"
  have "\<exists>ds. distance_loop ?K1 (PyInt (- 59)) (PyInt 2) (p @ [- 60]) [] [] = Inr ds \<and>
          length (raw ds) = length ([]::pyfloat list) + length (p @ [- 60]) \<and>
          length (filtered ds) = length ([]::pyfloat list) + length (p @ [- 60])"
    by (rule distance_loop_succeeds [OF _ _ _ params_59_2(1,2) _ params_59_2(3)])
      (simp_all add: KalmanFilter_init_def p_def)
  then obtain ds1 where l1: "distance_loop ?K1 (PyInt (- 59)) (PyInt 2) (p @ [- 60]) [] [] = Inr ds1"
    by blast
  have "\<exists>ds. distance_loop ?K2 (PyInt (- 59)) (PyInt 2) (p @ [- 60, - 58]) [] [] = Inr ds \<and>
          length (raw ds) = length ([]::pyfloat list) + length (p @ [- 60, - 58]) \<and>
          length (filtered ds) = length ([]::pyfloat list) + length (p @ [- 60, - 58])"
    by (rule distance_loop_succeeds [OF _ _ _ params_59_2(1,2) _ params_59_2(3)])
      (simp_all add: KalmanFilter_init_def p_def)
  then obtain ds2 where l2: "distance_loop ?K2 (PyInt (- 59)) (PyInt 2) (p @ [- 60, - 58]) [] [] = Inr ds2"
    by blast
  have len: "length p = 2" by (simp add: p_def)
  have "distance_loop ?K1 (PyInt (- 59)) (PyInt 2) p [] [] =
          Inr \<lparr>raw = take (length p) (raw ds1), filtered = take (length p) (filtered ds1)\<rparr>"
    using distance_loop_prefix [OF l1] by simp
  then have "take (length p) (filtered ds1) = [Fin (10 powr (7 / 20)), Fin (10 powr (502043 / 1570840))]"
    using two_steps_3 by (simp add: p_def [symmetric])
  then have "take 2 (filtered ds1) ! 1 = [Fin (10 powr (7 / 20)), Fin (10 powr (502043 / 1570840))] ! 1"
    by (simp only: len)
  then have f1: "filtered ds1 ! 1 = Fin (10 powr (502043 / 1570840))"
    by simp
  have "distance_loop ?K2 (PyInt (- 59)) (PyInt 2) p [] [] =
          Inr \<lparr>raw = take (length p) (raw ds2), filtered = take (length p) (filtered ds2)\<rparr>"
    using distance_loop_prefix [OF l2] by simp
  then have "take (length p) (filtered ds2) = [Fin (10 powr (7 / 20)), Fin (10 powr (159059 / 493420))]"
    using two_steps_7_2 by (simp add: p_def [symmetric])
  then have "take 2 (filtered ds2) ! 1 = [Fin (10 powr (7 / 20)), Fin (10 powr (159059 / 493420))] ! 1"
    by (simp only: len)
  then have f2: "filtered ds2 ! 1 = Fin (10 powr (159059 / 493420))"
    by simp
  have d1: "distanceCalculate [''EC:81:F6:64:F0:86'' \<mapsto> p @ [- 60]] ''EC:81:F6:64:F0:86''
      (PyInt (- 59)) (PyInt 2) = Inr ds1"
    using l1 stdev_h3 by (simp add: distanceCalculate_def getitem_def p_def)
  have d2: "distanceCalculate [''EC:81:F6:64:F0:86'' \<mapsto> p @ [- 60, - 58]] ''EC:81:F6:64:F0:86''
      (PyInt (- 59)) (PyInt 2) = Inr ds2"
    using l2 stdev_h4 by (simp add: distanceCalculate_def getitem_def p_def)
  have "filtered ds1 ! 1 \<noteq> filtered ds2 ! 1"
    unfolding f1 f2 by (rule powr_differ)
  with d1 d2 show ?thesis
    by (auto simp: p_def)
qed

text \<open>
  C3, amended. For one filter object, that is for a fixed measurement noise, the
  filtered output for sample \<open>i\<close> depends only on samples \<open>0..i\<close>: if the loop succeeds
  on an extended history, it succeeds on the history and returns the prefixes of the two
  series. And for the same device parameters the pipeline on \<open>-60, -60, -60\<close> and on
  its extension \<open>-60, -60, -60, -40\<close> gives identical filtered values at the indices 0,
  1 and 2, although the two measurement noises (0 and 10) differ.
\<close>

theorem no_look_ahead_fixed_noise:
  "(\<forall>ds. distance_loop test mRSSI txPower (xs @ ys) [] [] = Inr ds \<longrightarrow>
        distance_loop test mRSSI txPower xs [] [] =
          Inr \<lparr>raw = take (length xs) (raw ds), filtered = take (length xs) (filtered ds)\<rparr>) \<and>
   (\<forall>ds2. distanceCalculate [mac \<mapsto> [- 60, - 60, - 60, - 40]] mac mRSSI txPower = Inr ds2 \<longrightarrow>
        (\<exists>ds1. distanceCalculate [mac \<mapsto> [- 60, - 60, - 60]] mac mRSSI txPower = Inr ds1 \<and>
               filtered ds1 = take 3 (filtered ds2)))"
proof (intro conjI allI impI)
  fix ds assume "distance_loop test mRSSI txPower (xs @ ys) [] [] = Inr ds"
  from distance_loop_prefix [OF this]
  show "distance_loop test mRSSI txPower xs [] [] =
          Inr \<lparr>raw = take (length xs) (raw ds), filtered = take (length xs) (filtered ds)\<rparr>"
    by simp
next
  fix ds2
  define h :: "int list" where "h = [- 60, - 60, - 60]"
  have h_rep: "h = replicate 3 (- 60)" by (simp add: h_def numeral_3_eq_3)
  have h_cons: "h = (- 60) # [- 60, - 60]" by (simp add: h_def)
  have sd1: "stdev h = Inr 0" by (simp add: h_def stdev_const3)
  have sd2: "stdev (h @ [- 40]) = Inr 10" by (simp add: h_def stdev_ext4)
  let ?K10 = "KalmanFilter_init 0.008 10" and ?K0 = "KalmanFilter_init 0.008 0"
  assume "distanceCalculate [mac \<mapsto> [- 60, - 60, - 60, - 40]] mac mRSSI txPower = Inr ds2"
  then have "distanceCalculate [mac \<mapsto> h @ [- 40]] mac mRSSI txPower = Inr ds2"
    by (simp add: h_def)
  then have long: "distance_loop ?K10 mRSSI txPower (h @ [- 40]) [] [] = Inr ds2"
    by (simp add: distanceCalculate_def getitem_def sd2)
  have pre: "distance_loop ?K10 mRSSI txPower h [] [] =
          Inr \<lparr>raw = take (length h) (raw ds2), filtered = take (length h) (filtered ds2)\<rparr>"
    using distance_loop_prefix [OF long] by simp
  have "\<exists>kf'. KalmanFilter_filter ?K10 (real_of_int (- 60)) = Inr (real_of_int (- 60), kf')"
    using KalmanFilter_filter_step [of ?K10 "real_of_int (- 60)"]
    by (auto simp: KalmanFilter_init_def)
  then obtain kf' where "KalmanFilter_filter ?K10 (real_of_int (- 60)) = Inr (real_of_int (- 60), kf')"
    by blast
  from distance_loop_first [OF pre [unfolded h_cons] this]
  obtain dr df where dr: "distance mRSSI (PyInt (- 60)) txPower = Inr dr"
    and df: "distance mRSSI (PyFloat (Fin (real_of_int (- 60)))) txPower = Inr df"
    by blast
  have "distance_loop ?K10 mRSSI txPower (replicate 3 (- 60)) [] [] =
          Inr \<lparr>raw = [] @ replicate 3 dr, filtered = [] @ replicate 3 df\<rparr>"
    by (rule distance_loop_constant [OF _ _ _ _ dr df]) (simp_all add: KalmanFilter_init_def)
  then have "distance_loop ?K10 mRSSI txPower h [] [] =
          Inr \<lparr>raw = replicate 3 dr, filtered = replicate 3 df\<rparr>"
    unfolding h_rep by simp
  with pre have "take (length h) (filtered ds2) = replicate 3 df"
    by simp
  moreover have len: "length h = 3" by (simp add: h_def)
  ultimately have f2: "take 3 (filtered ds2) = replicate 3 df"
    by (simp only:)
  have "distance_loop ?K0 mRSSI txPower (replicate 3 (- 60)) [] [] =
          Inr \<lparr>raw = [] @ replicate 3 dr, filtered = [] @ replicate 3 df\<rparr>"
    by (rule distance_loop_constant [OF _ _ _ _ dr df]) (simp_all add: KalmanFilter_init_def)
  then have "distance_loop ?K0 mRSSI txPower h [] [] =
          Inr \<lparr>raw = replicate 3 dr, filtered = replicate 3 df\<rparr>"
    unfolding h_rep by simp
  then have "distanceCalculate [mac \<mapsto> h] mac mRSSI txPower
      = Inr \<lparr>raw = replicate 3 dr, filtered = replicate 3 df\<rparr>"
    by (simp add: distanceCalculate_def getitem_def sd1)
  then show "\<exists>ds1. distanceCalculate [mac \<mapsto> [- 60, - 60, - 60]] mac mRSSI txPower = Inr ds1 \<and>
               filtered ds1 = take 3 (filtered ds2)"
    using f2 by (simp add: h_def)
qed

theorem no_look_ahead_fixed_noise_witness:
  "(\<exists>ds. distance_loop (KalmanFilter_init 0.008 10) (PyInt (- 59)) (PyInt 2)
            ([- 60, - 60, - 60] @ [- 40]) [] [] = Inr ds \<and>
         distance_loop (KalmanFilter_init 0.008 10) (PyInt (- 59)) (PyInt 2) [- 60, - 60, - 60] [] [] =
           Inr \<lparr>raw = take (length [- 60, - 60, - 60 :: int]) (raw ds),
                filtered = take (length [- 60, - 60, - 60 :: int]) (filtered ds)\<rparr>) \<and>
   (\<exists>ds2 ds1.
      distanceCalculate [''EC:81:F6:64:F0:86'' \<mapsto> [- 60, - 60, - 60, - 40]] ''EC:81:F6:64:F0:86''
        (PyInt (- 59)) (PyInt 2) = Inr ds2 \<and>
      distanceCalculate [''EC:81:F6:64:F0:86'' \<mapsto> [- 60, - 60, - 60]] ''EC:81:F6:64:F0:86''
        (PyInt (- 59)) (PyInt 2) = Inr ds1 \<and>
      filtered ds1 = take 3 (filtered ds2))"
proof -
  define h :: "int list" where "h = [- 60, - 60, - 60] @ [- 40]"
  let ?K = "KalmanFilter_init 0.008 10"
  have "\<exists>ds. distance_loop ?K (PyInt (- 59)) (PyInt 2) h [] [] = Inr ds \<and>
          length (raw ds) = length ([]::pyfloat list) + length h \<and>
          length (filtered ds) = length ([]::pyfloat list) + length h"
    by (rule distance_loop_succeeds [OF _ _ _ params_59_2(1,2) _ params_59_2(3)])
      (simp_all add: KalmanFilter_init_def h_def)
  then obtain ds where l: "distance_loop ?K (PyInt (- 59)) (PyInt 2) h [] [] = Inr ds"
    by blast
  have d: "distanceCalculate [''EC:81:F6:64:F0:86'' \<mapsto> h] ''EC:81:F6:64:F0:86''
      (PyInt (- 59)) (PyInt 2) = Inr ds"
    using l stdev_ext4 by (simp add: distanceCalculate_def getitem_def h_def)
  note inst = no_look_ahead_fixed_noise [of ?K "PyInt (- 59)" "PyInt 2" "[- 60, - 60, - 60]" "[- 40]"
      "''EC:81:F6:64:F0:86''"]
  have one: "distance_loop ?K (PyInt (- 59)) (PyInt 2) [- 60, - 60, - 60] [] [] =
           Inr \<lparr>raw = take (length [- 60, - 60, - 60 :: int]) (raw ds),
                filtered = take (length [- 60, - 60, - 60 :: int]) (filtered ds)\<rparr>"
    using inst l unfolding h_def by blast
  have d': "distanceCalculate [''EC:81:F6:64:F0:86'' \<mapsto> [- 60, - 60, - 60, - 40]]
      ''EC:81:F6:64:F0:86'' (PyInt (- 59)) (PyInt 2) = Inr ds"
    using d by (simp add: h_def)
  have two: "\<exists>ds1. distanceCalculate [''EC:81:F6:64:F0:86'' \<mapsto> [- 60, - 60, - 60]]
      ''EC:81:F6:64:F0:86'' (PyInt (- 59)) (PyInt 2) = Inr ds1 \<and>
      filtered ds1 = take 3 (filtered ds)"
    using inst d' by blast
  show ?thesis
    using l one d' two unfolding h_def by blast
qed

end
